theory Spec2Isabelle
  imports Main "HOL-Library.Word"
begin

unbundle bit_operations_syntax

section \<open>The program: spinnaker\_app/spinn\_blink.c\<close>

text \<open>
  The application drives one LED with a software PWM pattern. Its whole state is the
  global \<open>counter\<close>; the duty value is the first word of SDRAM, which the program only
  reads (through the pointer \<open>led_value\<close>, declared \<open>const volatile uint *\<close>), and which a
  host writes from outside. The only effect of a tick is one call of
  \<open>spin1_led_control\<close>.

  \<open>uint\<close> comes from \<open>spinnaker.h\<close>, which is not part of the sources at hand; on the
  32-bit ARM cores of SpiNNaker it is \<open>unsigned int\<close>, a 32-bit word.
\<close>

type_synonym uint = "32 word"

text \<open>\<open>#define BLINK_LED 0\<close>\<close>

definition BLINK_LED :: nat where
  "BLINK_LED = 0"

text \<open>
  The argument of \<open>spin1_led_control\<close>. The macros \<open>LED_ON(n)\<close> and \<open>LED_OFF(n)\<close> are
  declared in \<open>spinnaker.h\<close>; they are kept symbolic here, as the request to switch LED
  \<open>n\<close> on, respectively off.
\<close>

datatype led_cmd = LED_ON nat | LED_OFF nat

text \<open>
  The state a tick can see or change:
  \<^item> \<open>counter\<close>: the global \<open>uint counter\<close>;
  \<^item> \<open>sdram0\<close>: the word that \<open>led_value\<close> points to (\<open>*led_value\<close>, the word at
    \<open>SDRAM_BASE_UNBUF\<close>);
  \<^item> \<open>led_calls\<close>: the calls of \<open>spin1_led_control\<close> made so far, oldest first.
\<close>

record state =
  counter :: uint
  sdram0 :: uint
  led_calls :: "led_cmd list"

text \<open>The external capability \<open>spin1_led_control\<close>: the model records the call.\<close>

definition spin1_led_control :: "led_cmd \<Rightarrow> state \<Rightarrow> state" where
  "spin1_led_control c s = s\<lparr>led_calls := led_calls s @ [c]\<rparr>"

text \<open>
  \<^verbatim>\<open>
  void on_timer_tick(uint _1, uint _2)
  {
      counter += 1;
      counter &= 0xFF;
      if (counter <= (*led_value)) {
          spin1_led_control(LED_ON(BLINK_LED));
      } else {
          spin1_led_control(LED_OFF(BLINK_LED));
      }
  }
  \<close>
\<close>

text \<open>The parameters \<open>_1\<close> and \<open>_2\<close> of the source are \<open>arg1\<close> and \<open>arg2\<close> here.\<close>

definition on_timer_tick :: "uint \<Rightarrow> uint \<Rightarrow> state \<Rightarrow> state" where
  "on_timer_tick arg1 arg2 s =
     (let s1 = s\<lparr>counter := counter s + 1\<rparr>;
          s2 = s1\<lparr>counter := counter s1 AND 0xFF\<rparr>
      in if counter s2 \<le> sdram0 s2
         then spin1_led_control (LED_ON BLINK_LED) s2
         else spin1_led_control (LED_OFF BLINK_LED) s2)"

text \<open>
  Startup: \<open>uint counter = 0\<close>, no LED call made yet. What the first word of SDRAM holds
  is not up to the program, so it is a parameter.
\<close>

definition init_state :: "uint \<Rightarrow> state" where
  "init_state d = \<lparr>counter = 0, sdram0 = d, led_calls = []\<rparr>"

text \<open>
  What happens to the state over time: the timer fires (\<open>Tick\<close>, with the two callback
  arguments), or the host stores a new value in the first word of SDRAM (\<open>Write\<close>).
  Ticks are serialised, so a history is a list of events.
\<close>

datatype event = Tick uint uint | Write uint

fun step :: "event \<Rightarrow> state \<Rightarrow> state" where
  "step (Tick a b) s = on_timer_tick a b s"
| "step (Write v) s = s\<lparr>sdram0 := v\<rparr>"

fun run :: "event list \<Rightarrow> state \<Rightarrow> state" where
  "run [] s = s"
| "run (e # es) s = run es (step e s)"

fun is_tick :: "event \<Rightarrow> bool" where
  "is_tick (Tick a b) = True"
| "is_tick (Write v) = False"

definition num_ticks :: "event list \<Rightarrow> nat" where
  "num_ticks es = length (filter is_tick es)"

text \<open>The LED calls that running \<open>es\<close> from \<open>s\<close> adds to those already made.\<close>

definition outputs :: "event list \<Rightarrow> state \<Rightarrow> led_cmd list" where
  "outputs es s = drop (length (led_calls s)) (led_calls (run es s))"

definition on_count :: "led_cmd list \<Rightarrow> nat" where
  "on_count cs = length (filter (\<lambda>c. c = LED_ON BLINK_LED) cs)"

definition off_count :: "led_cmd list \<Rightarrow> nat" where
  "off_count cs = length (filter (\<lambda>c. c = LED_OFF BLINK_LED) cs)"

text \<open>A run of ticks only, one per pair of callback arguments: the duty word stays as it is.\<close>

definition ticks :: "(uint \<times> uint) list \<Rightarrow> event list" where
  "ticks args = map (\<lambda>(a, b). Tick a b) args"

text \<open>
  A run given by the duty word in place at each tick: for every triple \<open>(d, a, b)\<close> the host
  stores \<open>d\<close>, then the timer fires with the arguments \<open>a\<close> and \<open>b\<close>.
\<close>

definition duty_run :: "(uint \<times> uint \<times> uint) list \<Rightarrow> event list" where
  "duty_run xs = concat (map (\<lambda>(d, a, b). [Write d, Tick a b]) xs)"

text \<open>
  The LED call of a tick that starts with the counter at \<open>c\<close> and reads the duty word
  \<open>d\<close>: lines 22 to 29 of the source, as a function of the two values. It is only a
  name for the proofs below; \<open>on_timer_tick\<close> does not use it.
\<close>

definition pwm :: "uint \<Rightarrow> uint \<Rightarrow> led_cmd" where
  "pwm c d = (if (c + 1) AND 0xFF \<le> d then LED_ON BLINK_LED else LED_OFF BLINK_LED)"

section \<open>One tick\<close>

lemma tick_unfold:
  "on_timer_tick a b s =
     s\<lparr>counter := (counter s + 1) AND 0xFF,
       led_calls := led_calls s @
         [if (counter s + 1) AND 0xFF \<le> sdram0 s then LED_ON BLINK_LED else LED_OFF BLINK_LED]\<rparr>"
  by (simp add: on_timer_tick_def spin1_led_control_def Let_def)

lemma tick_counter: "counter (on_timer_tick a b s) = (counter s + 1) AND 0xFF"
  by (simp add: tick_unfold)

lemma tick_sdram0: "sdram0 (on_timer_tick a b s) = sdram0 s"
  by (simp add: tick_unfold)

lemma tick_led_calls:
  "led_calls (on_timer_tick a b s) = led_calls s @
     [if (counter s + 1) AND 0xFF \<le> sdram0 s then LED_ON BLINK_LED else LED_OFF BLINK_LED]"
  by (simp add: tick_unfold)

section \<open>Arithmetic of the counter and of a period\<close>

lemma unat_inc_mask: "unat (((c::uint) + 1) AND 0xFF) = (unat c + 1) mod 256"
proof -
  have "(c + 1) AND 0xFF = take_bit 8 (c + 1)"
    by (simp add: take_bit_eq_mask mask_eq_exp_minus_1)
  then show ?thesis
    by (simp add: unsigned_take_bit_eq unat_word_ariths take_bit_eq_mod mod_mod_cancel)
qed

lemma window_shift:
  assumes "0 < n"
  shows "length (filter (\<lambda>j. j mod n \<le> d) [Suc c..<Suc (c + n)]) =
         length (filter (\<lambda>j. j mod n \<le> d) [c..<c + n])"
proof -
  have l: "[c..<c + n] = c # [Suc c..<c + n]"
    using assms by (simp add: upt_conv_Cons)
  have r: "[Suc c..<Suc (c + n)] = [Suc c..<c + n] @ [c + n]"
    using assms by simp
  have p: "((c + n) mod n \<le> d) = (c mod n \<le> d)"
    by (simp only: mod_add_self2)
  show ?thesis
    unfolding l r by (simp only: filter_append filter.simps length_append p split: if_split) simp
qed

lemma window_any:
  "length (filter (\<lambda>j. j mod Suc m \<le> d) [c..<c + Suc m]) =
   length (filter (\<lambda>j. j mod Suc m \<le> d) [0..<Suc m])"
proof (induction c)
  case 0
  show ?case by simp
next
  case (Suc c)
  then show ?case using window_shift [of "Suc m" d c] by simp
qed

lemma window_base:
  assumes "d \<le> m"
  shows "length (filter (\<lambda>j. j mod Suc m \<le> d) [0..<Suc m]) = d + 1"
proof -
  have "{x. x mod Suc m \<le> d} \<inter> set [0..<Suc m] = {0..d}"
    using assms by auto
  then have "card ({x. x mod Suc m \<le> d} \<inter> set [0..<Suc m]) = d + 1"
    by simp
  then show ?thesis
    by (simp only: distinct_length_filter [OF distinct_upt])
qed

lemma window_count:
  assumes "d \<le> m"
  shows "length (filter (\<lambda>k. (c + k) mod Suc m \<le> d) [0..<Suc m]) = d + 1"
proof -
  have "[c..<c + Suc m] = map (\<lambda>k. c + k) [0..<Suc m]"
    using map_add_upt [of c "Suc m"] by (simp add: add.commute)
  then have "length (filter (\<lambda>j. j mod Suc m \<le> d) [c..<c + Suc m]) =
             length (filter (\<lambda>k. (c + k) mod Suc m \<le> d) [0..<Suc m])"
    by (simp only: filter_map length_map comp_def)
  then show ?thesis
    using window_any [of m d c] window_base [OF assms] by simp
qed

lemma window_count_256:
  assumes "d < 256"
  shows "length (filter (\<lambda>k. (c + k) mod 256 \<le> d) [0..<256]) = d + 1"
  using window_count [of d 255 c] assms by simp

lemma pwm_nat:
  "pwm c d = (if (unat c + 1) mod 256 \<le> unat d then LED_ON BLINK_LED else LED_OFF BLINK_LED)"
  by (simp add: pwm_def word_le_nat_alt unat_inc_mask)

lemma step_led_calls:
  "led_calls (step e s) = led_calls s @ (case e of Tick a b \<Rightarrow> [pwm (counter s) (sdram0 s)] | Write v \<Rightarrow> [])"
  by (cases e) (simp_all add: tick_led_calls pwm_def)

lemma run_led_calls_prefix: "\<exists>cs. led_calls (run es s) = led_calls s @ cs"
proof (induction es arbitrary: s)
  case Nil
  show ?case by simp
next
  case (Cons e es)
  from Cons.IH [of "step e s"] obtain cs where
    "led_calls (run es (step e s)) = led_calls (step e s) @ cs" ..
  then show ?case by (simp add: step_led_calls)
qed

lemma led_calls_run: "led_calls (run es s) = led_calls s @ outputs es s"
proof -
  obtain cs where "led_calls (run es s) = led_calls s @ cs"
    using run_led_calls_prefix ..
  then show ?thesis by (simp add: outputs_def)
qed

lemma outputs_Nil: "outputs [] s = []"
  by (simp add: outputs_def)

lemma outputs_Cons: "outputs (e # es) s = outputs [e] s @ outputs es (step e s)"
proof -
  have "led_calls (run (e # es) s) = led_calls s @ outputs [e] s @ outputs es (step e s)"
    using led_calls_run [of es "step e s"] led_calls_run [of "[e]" s] by simp
  then have "drop (length (led_calls s)) (led_calls (run (e # es) s)) =
             outputs [e] s @ outputs es (step e s)"
    by simp
  then show ?thesis by (simp only: outputs_def [of "e # es" s])
qed

lemma outputs_Tick: "outputs [Tick a b] s = [pwm (counter s) (sdram0 s)]"
  by (simp add: outputs_def tick_led_calls pwm_def)

lemma outputs_Write: "outputs [Write v] s = []"
  by (simp add: outputs_def)

lemma outputs_ticks:
  "outputs (ticks args) s =
     map (\<lambda>k. if (unat (counter s) + 1 + k) mod 256 \<le> unat (sdram0 s)
              then LED_ON BLINK_LED else LED_OFF BLINK_LED) [0..<length args]"
proof (induction args arbitrary: s)
  case Nil
  show ?case by (simp add: ticks_def outputs_Nil)
next
  case (Cons p args)
  obtain a b where p: "p = (a, b)" by (cases p)
  let ?s = "on_timer_tick a b s"
  have c: "unat (counter ?s) = (unat (counter s) + 1) mod 256"
    by (simp add: tick_counter unat_inc_mask)
  have per: "((unat (counter s) + 1) mod 256 + 1 + k) mod 256 = (unat (counter s) + 1 + Suc k) mod 256" for k
  proof -
    have "((unat (counter s) + 1) mod 256 + (1 + k)) mod 256 = ((unat (counter s) + 1) + (1 + k)) mod 256"
      by (rule mod_add_left_eq)
    then show ?thesis by (simp only: add.assoc Suc_eq_plus1 add.commute [of k 1])
  qed
  have "outputs (ticks (p # args)) s = pwm (counter s) (sdram0 s) # outputs (ticks args) ?s"
    using outputs_Cons [of "Tick a b" "ticks args" s] by (simp add: ticks_def p outputs_Tick)
  also have "outputs (ticks args) ?s =
      map (\<lambda>k. if (unat (counter s) + 1 + k) mod 256 \<le> unat (sdram0 s)
              then LED_ON BLINK_LED else LED_OFF BLINK_LED) (map Suc [0..<length args])"
    by (simp only: Cons.IH c per tick_sdram0 map_map comp_def)
  finally show ?case
    by (simp add: pwm_nat upt_rec [of 0 "Suc (length args)"] map_Suc_upt del: upt_Suc)
qed


lemma step_counter_mod:
  "unat (counter (step e s)) mod 256 = (unat (counter s) + (if is_tick e then 1 else 0)) mod 256"
  by (cases e) (simp_all add: tick_counter unat_inc_mask)

lemma run_counter_mod:
  "unat (counter (run es s)) mod 256 = (unat (counter s) + num_ticks es) mod 256"
proof (induction es arbitrary: s)
  case Nil
  show ?case by (simp add: num_ticks_def)
next
  case (Cons e es)
  have "unat (counter (run (e # es) s)) mod 256 =
        (unat (counter (step e s)) mod 256 + num_ticks es) mod 256"
    by (simp add: Cons.IH mod_add_left_eq)
  also have "\<dots> = ((unat (counter s) + (if is_tick e then 1 else 0)) mod 256 + num_ticks es) mod 256"
    by (simp only: step_counter_mod)
  also have "\<dots> = (unat (counter s) + (if is_tick e then 1 else 0) + num_ticks es) mod 256"
    by (rule mod_add_left_eq)
  finally show ?case by (simp add: num_ticks_def add.assoc)
qed

lemma step_counter_small:
  "unat (counter s) < 256 \<Longrightarrow> unat (counter (step e s)) < 256"
  by (cases e) (simp_all add: tick_counter unat_inc_mask)

lemma run_counter_small:
  "unat (counter s) < 256 \<Longrightarrow> unat (counter (run es s)) < 256"
proof (induction es arbitrary: s)
  case Nil
  then show ?case by simp
next
  case (Cons e es)
  then show ?case by (simp add: step_counter_small)
qed

lemma init_counter_small: "unat (counter (init_state d)) < 256"
  by (simp add: init_state_def)

lemma on_count_ticks:
  "on_count (outputs (ticks args) s) =
     length (filter (\<lambda>k. (unat (counter s) + 1 + k) mod 256 \<le> unat (sdram0 s)) [0..<length args])"
  by (simp add: on_count_def outputs_ticks filter_map comp_def)

lemma off_count_ticks:
  "off_count (outputs (ticks args) s) =
     length (filter (\<lambda>k. \<not> (unat (counter s) + 1 + k) mod 256 \<le> unat (sdram0 s)) [0..<length args])"
  by (simp add: off_count_def outputs_ticks filter_map comp_def)

lemma on_off_count_ticks:
  "on_count (outputs (ticks args) s) + off_count (outputs (ticks args) s) = length args"
  using sum_length_filter_compl
    [of "\<lambda>k. (unat (counter s) + 1 + k) mod 256 \<le> unat (sdram0 s)" "[0..<length args]"]
  by (simp only: on_count_ticks off_count_ticks length_upt)

lemma on_count_period:
  assumes "length args = 256" and "unat (sdram0 s) < 256"
  shows "on_count (outputs (ticks args) s) = unat (sdram0 s) + 1"
  using window_count_256 [OF assms(2), of "unat (counter s) + 1"]
  by (simp only: on_count_ticks assms(1))

lemma step_counter_cong:
  "counter s1 = counter s2 \<Longrightarrow> counter (step e s1) = counter (step e s2)"
  by (cases e) (simp_all add: tick_counter)

lemma run_counter_cong:
  "counter s1 = counter s2 \<Longrightarrow> counter (run es s1) = counter (run es s2)"
proof (induction es arbitrary: s1 s2)
  case Nil
  then show ?case by simp
next
  case (Cons e es)
  have "counter (step e s1) = counter (step e s2)"
    by (rule step_counter_cong [OF Cons.prems])
  then have "counter (run es (step e s1)) = counter (run es (step e s2))"
    by (rule Cons.IH)
  then show ?case by simp
qed

lemma outputs_Write_Tick:
  "outputs [Write v, Tick a b] s = [pwm (counter s) v]"
  using outputs_Cons [of "Write v" "[Tick a b]" s]
  by (simp add: outputs_Write outputs_Tick)

section \<open>The claims\<close>

text \<open>
  C1. For every counter value \<open>c\<close> and every duty value \<open>d\<close>, a tick that starts with the
  counter at \<open>c\<close> and finds \<open>d\<close> in the first word of SDRAM leaves the counter at
  \<open>(c + 1) AND 0xFF\<close>, the post-increment value, and makes one LED call: on exactly when
  that post-increment value is at most \<open>d\<close>, off otherwise. Read as numbers, the
  comparison is \<open>(c + 1) mod 256 \<le> d\<close>.
\<close>

theorem C1_output_iff_counter_le_duty:
  "on_timer_tick a b \<lparr>counter = c, sdram0 = d, led_calls = cs\<rparr> =
     \<lparr>counter = (c + 1) AND 0xFF, sdram0 = d,
      led_calls = cs @ [if (c + 1) AND 0xFF \<le> d then LED_ON BLINK_LED else LED_OFF BLINK_LED]\<rparr> \<and>
   ((c + 1) AND 0xFF \<le> d) = ((unat c + 1) mod 256 \<le> unat d)"
  by (simp add: tick_unfold word_le_nat_alt unat_inc_mask)

text \<open>
  C2. With the duty word fixed at \<open>d\<close>, \<open>0 \<le> d \<le> 255\<close>, 256 ticks in a row that start
  with the counter at 0 switch the LED on exactly \<open>d + 1\<close> times and off exactly
  \<open>255 - d\<close> times.
\<close>

theorem C2_period_on_off_counts:
  assumes "counter s = 0" and "sdram0 s \<le> 255" and "length args = 256"
  shows "on_count (outputs (ticks args) s) = unat (sdram0 s) + 1 \<and>
         off_count (outputs (ticks args) s) = 255 - unat (sdram0 s)"
proof -
  have d: "unat (sdram0 s) < 256"
    using assms(2) by (simp add: word_le_nat_alt)
  have on: "on_count (outputs (ticks args) s) = unat (sdram0 s) + 1"
    by (rule on_count_period [OF assms(3) d])
  moreover have "off_count (outputs (ticks args) s) = 255 - unat (sdram0 s)"
    using on_off_count_ticks [of args s] on assms(3) by simp
  ultimately show ?thesis by simp
qed

theorem C2_period_on_off_counts_witness:
  "counter (init_state 128) = 0 \<and> sdram0 (init_state 128) \<le> 255 \<and>
   length (replicate 256 (0 :: uint, 0 :: uint)) = 256 \<and>
   on_count (outputs (ticks (replicate 256 (0, 0))) (init_state 128)) = 129 \<and>
   off_count (outputs (ticks (replicate 256 (0, 0))) (init_state 128)) = 127"
  using C2_period_on_off_counts [of "init_state 128" "replicate 256 (0, 0)"]
  by (simp add: init_state_def)

text \<open>
  C3. The counter starts at 0; every tick sets it to (previous + 1) mod 256, and the
  comparison of that tick is made with the new value; so after any history from startup
  the counter lies between 0 and 255.
\<close>

theorem C3_counter_wraps_mod_256:
  "counter (init_state d) = 0 \<and>
   unat (counter (on_timer_tick a b s)) = (unat (counter s) + 1) mod 256 \<and>
   led_calls (on_timer_tick a b s) = led_calls s @
     [if counter (on_timer_tick a b s) \<le> sdram0 s
      then LED_ON BLINK_LED else LED_OFF BLINK_LED] \<and>
   unat (counter (run es (init_state d))) \<le> 255"
proof -
  have "unat (counter (run es (init_state d))) < 256"
    by (rule run_counter_small [OF init_counter_small])
  then show ?thesis
    by (simp add: init_state_def tick_counter tick_led_calls unat_inc_mask)
qed

text \<open>
  C4. With a duty word of 256 or more, every tick switches the LED on, exactly as with
  the duty word 255; this from any state, reachable or not.
\<close>

theorem C4_duty_above_range_always_on:
  assumes "256 \<le> sdram0 s"
  shows "outputs (ticks args) s = replicate (length args) (LED_ON BLINK_LED) \<and>
         outputs (ticks args) s = outputs (ticks args) (s\<lparr>sdram0 := 255\<rparr>) \<and>
         counter (run (ticks args) s) = counter (run (ticks args) (s\<lparr>sdram0 := 255\<rparr>))"
proof -
  have d: "256 \<le> unat (sdram0 s)"
    using assms by (simp add: word_le_nat_alt)
  have m: "k mod 256 \<le> unat (sdram0 s)" for k :: nat
    using d less_le_trans [OF mod_less_divisor [of 256 k]] by simp
  have m': "k mod 256 \<le> 255" for k :: nat
    using mod_less_divisor [of 256 k] by simp
  have 1: "outputs (ticks args) s = replicate (length args) (LED_ON BLINK_LED)"
    by (simp add: outputs_ticks m map_replicate_const)
  have 2: "outputs (ticks args) (s\<lparr>sdram0 := 255\<rparr>) = replicate (length args) (LED_ON BLINK_LED)"
    by (simp add: outputs_ticks m' map_replicate_const)
  have 3: "counter (run (ticks args) s) = counter (run (ticks args) (s\<lparr>sdram0 := 255\<rparr>))"
    by (rule run_counter_cong) simp
  from 1 2 3 show ?thesis by simp
qed

theorem C4_duty_above_range_always_on_witness:
  "(256 :: uint) \<le> sdram0 (init_state 1000) \<and>
   outputs (ticks [(0, 0), (0, 0)]) (init_state 1000) =
     replicate (length [(0 :: uint, 0 :: uint), (0, 0)]) (LED_ON BLINK_LED) \<and>
   outputs (ticks [(0, 0), (0, 0)]) (init_state 1000) =
     outputs (ticks [(0, 0), (0, 0)]) ((init_state 1000)\<lparr>sdram0 := 255\<rparr>) \<and>
   counter (run (ticks [(0, 0), (0, 0)]) (init_state 1000)) =
     counter (run (ticks [(0, 0), (0, 0)]) ((init_state 1000)\<lparr>sdram0 := 255\<rparr>))"
proof -
  have h: "(256 :: uint) \<le> sdram0 (init_state 1000)"
    by (simp add: init_state_def)
  show ?thesis
    using h C4_duty_above_range_always_on [OF h, of "[(0, 0), (0, 0)]"] by blast
qed

text \<open>
  C5. With the duty word 0, a tick switches the LED on exactly when the counter, after
  its increment, is 0, and off otherwise; over 256 ticks in a row that is one tick on
  and 255 off, so the LED is not fully off.
\<close>

theorem C5_duty_zero_one_tick_per_period:
  assumes "sdram0 s = 0"
  shows "outputs [Tick a b] s =
           [if counter (on_timer_tick a b s) = 0 then LED_ON BLINK_LED else LED_OFF BLINK_LED] \<and>
         (length args = 256 \<longrightarrow>
            on_count (outputs (ticks args) s) = 1 \<and> off_count (outputs (ticks args) s) = 255)"
proof -
  have 1: "outputs [Tick a b] s =
           [if counter (on_timer_tick a b s) = 0 then LED_ON BLINK_LED else LED_OFF BLINK_LED]"
    by (simp add: outputs_Tick pwm_def tick_counter assms)
  have 2: "on_count (outputs (ticks args) s) = 1 \<and> off_count (outputs (ticks args) s) = 255"
    if l: "length args = 256"
  proof -
    have on: "on_count (outputs (ticks args) s) = 1"
      using on_count_period [OF l, of s] by (simp add: assms)
    then show ?thesis
      using on_off_count_ticks [of args s] l by simp
  qed
  from 1 2 show ?thesis by simp
qed

theorem C5_duty_zero_one_tick_per_period_witness:
  "sdram0 (init_state 0) = 0 \<and> length (replicate 256 (0 :: uint, 0 :: uint)) = 256 \<and>
   outputs [Tick 0 0] (init_state 0) = [LED_OFF BLINK_LED] \<and>
   on_count (outputs (ticks (replicate 256 (0, 0))) (init_state 0)) = 1 \<and>
   off_count (outputs (ticks (replicate 256 (0, 0))) (init_state 0)) = 255"
  using C5_duty_zero_one_tick_per_period [of "init_state 0" 0 0 "replicate 256 (0, 0)"]
  by (simp add: init_state_def tick_counter)

text \<open>
  C6. From any state reachable from startup, a history with exactly 256 ticks (and any
  writes of the duty word in between) brings the counter back to the value it had.
\<close>

theorem C6_256_ticks_restore_counter:
  assumes "num_ticks es = 256"
  shows "counter (run es (run pre (init_state d))) = counter (run pre (init_state d))"
proof -
  let ?s = "run pre (init_state d)"
  have a: "unat (counter ?s) < 256"
    by (rule run_counter_small [OF init_counter_small])
  have b: "unat (counter (run es ?s)) < 256"
    by (rule run_counter_small [OF a])
  have "unat (counter (run es ?s)) mod 256 = (unat (counter ?s) + 256) mod 256"
    using run_counter_mod [of es ?s] by (simp only: assms)
  then have "unat (counter (run es ?s)) = unat (counter ?s)"
    using a b by simp
  then show ?thesis by (simp only: word_unat_eq_iff)
qed

theorem C6_256_ticks_restore_counter_witness:
  "num_ticks (replicate 256 (Tick 0 0)) = 256 \<and>
   counter (run (replicate 256 (Tick 0 0)) (run [Tick 0 0, Write 7, Tick 0 0] (init_state 0))) =
   counter (run [Tick 0 0, Write 7, Tick 0 0] (init_state 0))"
  using C6_256_ticks_restore_counter [of "replicate 256 (Tick 0 0)" "[Tick 0 0, Write 7, Tick 0 0]" 0]
  by (simp add: num_ticks_def)

text \<open>
  C7. When the host stores \<open>v\<close> between two ticks, the next tick decides with \<open>v\<close>: its
  LED call is a function of the counter and of \<open>v\<close> alone, and the duty word that was in
  place at the tick before plays no part.
\<close>

theorem C7_duty_read_fresh_each_tick:
  "outputs [Write v, Tick a b] s =
     [if (counter s + 1) AND 0xFF \<le> v then LED_ON BLINK_LED else LED_OFF BLINK_LED]"
  by (simp add: outputs_Write_Tick pwm_def)

text \<open>
  C8. A tick adds exactly one LED call to those made before, an on or an off for the
  blink LED; it leaves the duty word as it was, and changes nothing in the state but the
  counter and the record of LED calls.
\<close>

theorem C8_one_led_call_and_frame:
  "led_calls (on_timer_tick a b s) = led_calls s @ outputs [Tick a b] s \<and>
   length (outputs [Tick a b] s) = 1 \<and>
   (outputs [Tick a b] s = [LED_ON BLINK_LED] \<or> outputs [Tick a b] s = [LED_OFF BLINK_LED]) \<and>
   sdram0 (on_timer_tick a b s) = sdram0 s \<and>
   on_timer_tick a b s =
     s\<lparr>counter := counter (on_timer_tick a b s), led_calls := led_calls (on_timer_tick a b s)\<rparr>"
  by (simp add: outputs_Tick pwm_def tick_unfold)

text \<open>
  C9. Two runs that start with the same counter and see the same duty word at each tick
  make the same LED calls and end with the same counter, whatever else differs between
  them (the callback arguments, the LED calls made before, the duty word before the first
  write).
\<close>

theorem C9_deterministic:
  assumes "counter s1 = counter s2" and "map fst xs = map fst ys"
  shows "outputs (duty_run xs) s1 = outputs (duty_run ys) s2 \<and>
         counter (run (duty_run xs) s1) = counter (run (duty_run ys) s2)"
  using assms
proof (induction xs arbitrary: ys s1 s2)
  case Nil
  then show ?case by (simp add: duty_run_def outputs_Nil)
next
  case (Cons x xs)
  obtain d a b where x: "x = (d, a, b)" by (cases x)
  from Cons.prems(2) obtain y ys' where ys: "ys = y # ys'" by (cases ys) auto
  obtain a' b' where y: "y = (d, a', b')"
    using Cons.prems(2) x ys by (cases y) auto
  let ?t1 = "on_timer_tick a b (s1\<lparr>sdram0 := d\<rparr>)"
  let ?t2 = "on_timer_tick a' b' (s2\<lparr>sdram0 := d\<rparr>)"
  have c: "counter ?t1 = counter ?t2"
    by (simp add: tick_counter Cons.prems(1))
  have m: "map fst xs = map fst ys'"
    using Cons.prems(2) ys by simp
  have ox: "outputs (duty_run (x # xs)) s1 = pwm (counter s1) d # outputs (duty_run xs) ?t1"
    using outputs_Cons [of "Write d" "Tick a b # duty_run xs" s1]
          outputs_Cons [of "Tick a b" "duty_run xs" "s1\<lparr>sdram0 := d\<rparr>"]
    by (simp add: duty_run_def x outputs_Write outputs_Tick)
  have oy: "outputs (duty_run (y # ys')) s2 = pwm (counter s2) d # outputs (duty_run ys') ?t2"
    using outputs_Cons [of "Write d" "Tick a' b' # duty_run ys'" s2]
          outputs_Cons [of "Tick a' b'" "duty_run ys'" "s2\<lparr>sdram0 := d\<rparr>"]
    by (simp add: duty_run_def y outputs_Write outputs_Tick)
  have rx: "run (duty_run (x # xs)) s1 = run (duty_run xs) ?t1"
    by (simp add: duty_run_def x)
  have ry: "run (duty_run (y # ys')) s2 = run (duty_run ys') ?t2"
    by (simp add: duty_run_def y)
  from Cons.IH [OF c m] show ?case
    by (simp only: ox oy rx ry ys Cons.prems(1))
qed

theorem C9_deterministic_witness:
  "counter (init_state 5) = counter \<lparr>counter = 0, sdram0 = 9, led_calls = [LED_OFF BLINK_LED]\<rparr> \<and>
   map fst [(0 :: uint, 1 :: uint, 2 :: uint), (200, 3, 4)] = map fst [(0 :: uint, 7 :: uint, 7 :: uint), (200, 8, 8)] \<and>
   outputs (duty_run [(0, 1, 2), (200, 3, 4)]) (init_state 5) =
   outputs (duty_run [(0, 7, 7), (200, 8, 8)])
     \<lparr>counter = 0, sdram0 = 9, led_calls = [LED_OFF BLINK_LED]\<rparr> \<and>
   counter (run (duty_run [(0, 1, 2), (200, 3, 4)]) (init_state 5)) =
   counter (run (duty_run [(0, 7, 7), (200, 8, 8)])
     \<lparr>counter = 0, sdram0 = 9, led_calls = [LED_OFF BLINK_LED]\<rparr>)"
  using C9_deterministic [of "init_state 5" "\<lparr>counter = 0, sdram0 = 9, led_calls = [LED_OFF BLINK_LED]\<rparr>"
      "[(0, 1, 2), (200, 3, 4)]" "[(0, 7, 7), (200, 8, 8)]"]
  by (simp add: init_state_def)

text \<open>
  C10. The two callback arguments play no part: with any other two arguments the tick
  leaves the same state (the same counter, the same LED call).
\<close>

theorem C10_arguments_ignored:
  "on_timer_tick a b s = on_timer_tick a' b' s"
  by (simp add: tick_unfold)

end
